theory Spec2Isabelle
  imports Complex_Main
begin

section \<open>Data model\<close>

text \<open>
  The library system keeps its state in one SQLite store reached through the global
  \<open>db_manager\<close> (utils/db_connection.py). The tables are modelled as lists of rows in
  insertion (rowid) order; a \<open>WHERE\<close> clause is a \<open>filter\<close>, an \<open>UPDATE\<close> a \<open>map\<close>,
  a \<open>DELETE\<close> a \<open>filter\<close> on the negated condition, an \<open>INSERT\<close> appends a row whose
  key is drawn from the table's AUTOINCREMENT sequence.

  Times are Python \<open>datetime\<close> values, modelled as microseconds on the integer line;
  a \<open>timedelta\<close> is a difference of two of them. Money amounts are Python floats,
  idealised as reals. The text columns \<open>status\<close> are restricted by CHECK constraints to
  a fixed set of values and are modelled as datatypes.

  Columns that none of the modelled operations reads (author, isbn, category,
  description, the created_date defaults, is_read, the users' name, email and role) are
  left out. FOREIGN KEY enforcement and storage exceptions (a locked or corrupt
  database file) are outside the model: on a connected store a statement succeeds,
  on a store that is not connected \<open>execute_query\<close> yields \<open>None\<close> and
  \<open>execute_update\<close> yields \<open>False\<close>.
\<close>

type_synonym datetime = int

definition timedelta :: "int \<Rightarrow> int" where
  "timedelta days = days * 86400000000"

definition td_days :: "int \<Rightarrow> int" where
  "td_days delta = delta div 86400000000"

datatype lending_status = LActive | LReturned | LOverdue

datatype reservation_status = RPending | RFulfilled | RCancelled

datatype error = ModuleNotFoundError

record book_row =
  b_book_id :: int
  b_title :: string
  b_total_copies :: int
  b_available_copies :: int

record user_row =
  u_user_id :: int
  u_is_active :: bool

record lending_row =
  l_lending_id :: int
  l_book_id :: int
  l_user_id :: int
  l_issue_date :: datetime
  l_due_date :: datetime
  l_return_date :: "datetime option"
  l_fine_amount :: real
  l_status :: lending_status

record reservation_row =
  r_reservation_id :: int
  r_book_id :: int
  r_user_id :: int
  r_reservation_date :: datetime
  r_status :: reservation_status
  r_notification_sent :: bool

record notification_row =
  n_notification_id :: int
  n_user_id :: int
  n_message :: string
  n_type :: string

record db_manager =
  connected :: bool
  books :: "book_row list"
  users :: "user_row list"
  lending :: "lending_row list"
  reservations :: "reservation_row list"
  notifications :: "notification_row list"
  seq_lending :: int
  seq_reservations :: int
  seq_notifications :: int

text \<open>
  The Python objects that the model classes load from a row. A freshly constructed
  object has no key yet (\<open>None\<close>); \<open>save\<close> inserts it and stores the generated key.
\<close>

record Book =
  book_id :: "int option"
  title :: string
  total_copies :: int
  available_copies :: int

record Lending =
  lending_id :: "int option"
  lending_book_id :: int
  lending_user_id :: int
  issue_date :: datetime
  due_date :: "datetime option"
  return_date :: "datetime option"
  fine_amount :: real
  status :: lending_status

record Reservation =
  reservation_id :: "int option"
  reservation_book_id :: int
  reservation_user_id :: int
  reservation_date :: datetime
  reservation_status :: reservation_status
  notification_sent :: bool

section \<open>Store primitives\<close>

text \<open>Python's \<open>not self.book_id\<close>: true for \<open>None\<close> and for \<open>0\<close>.\<close>

definition falsy_id :: "int option \<Rightarrow> bool" where
  "falsy_id i = (case i of None \<Rightarrow> True | Some k \<Rightarrow> k = 0)"

text \<open>
  \<open>INTEGER PRIMARY KEY AUTOINCREMENT\<close>: the new key is one more than the largest key
  the table has ever held (the sequence value, or the largest key present).
\<close>

definition next_rowid :: "int \<Rightarrow> int list \<Rightarrow> int" where
  "next_rowid seq ids = 1 + fold max ids (max 0 seq)"

text \<open>Formatting an integer in an f-string: decimal digits, a minus sign when negative.\<close>

function str_nat :: "nat \<Rightarrow> string" where
  "str_nat n = (if n < 10 then [''0123456789'' ! n]
                else str_nat (n div 10) @ [''0123456789'' ! (n mod 10)])"
  by pat_completeness auto
termination
  by (relation "measure (\<lambda>n. n)") auto

definition str_int :: "int \<Rightarrow> string" where
  "str_int i = (if i < 0 then CHR ''-'' # str_nat (nat (- i)) else str_nat (nat i))"

text \<open>\<open>INSERT INTO notifications (user_id, message, type) VALUES (?, ?, ?)\<close>\<close>

definition insert_notification :: "db_manager \<Rightarrow> int \<Rightarrow> string \<Rightarrow> string \<Rightarrow> bool \<times> db_manager" where
  "insert_notification s uid msg ty =
     (if \<not> connected s then (False, s)
      else let nid = next_rowid (seq_notifications s) (map n_notification_id (notifications s))
           in (True, s\<lparr>notifications := notifications s @
                 [\<lparr>n_notification_id = nid, n_user_id = uid, n_message = msg, n_type = ty\<rparr>],
                 seq_notifications := nid\<rparr>))"

section \<open>Books (models/books.py)\<close>

definition Book_load_from_dict :: "book_row \<Rightarrow> Book" where
  "Book_load_from_dict data =
     \<lparr>book_id = Some (b_book_id data), title = b_title data,
      total_copies = b_total_copies data, available_copies = b_available_copies data\<rparr>"

definition Book_get_by_id :: "db_manager \<Rightarrow> int \<Rightarrow> Book option" where
  "Book_get_by_id s bid =
     (if \<not> connected s then None
      else case filter (\<lambda>r. b_book_id r = bid) (books s) of
             [] \<Rightarrow> None
           | r # _ \<Rightarrow> Some (Book_load_from_dict r))"

definition is_available :: "Book \<Rightarrow> bool" where
  "is_available book = (available_copies book > 0)"

text \<open>
  \<open>Book.update_availability(change)\<close>: returns the success flag, the store and the
  (mutated) Book object.
\<close>

definition update_availability :: "db_manager \<Rightarrow> Book \<Rightarrow> int \<Rightarrow> bool \<times> db_manager \<times> Book" where
  "update_availability s book change =
     (if \<not> connected s \<or> falsy_id (book_id book) then (False, s, book)
      else let new_available = available_copies book + change in
        if new_available < 0 then (False, s, book)
        else if new_available > total_copies book then (False, s, book)
        else (True,
              s\<lparr>books := map (\<lambda>r. if Some (b_book_id r) = book_id book
                                     then r\<lparr>b_available_copies := new_available\<rparr> else r) (books s)\<rparr>,
              book\<lparr>available_copies := new_available\<rparr>))"

section \<open>Users (models/users.py)\<close>

definition User_get_by_id :: "db_manager \<Rightarrow> int \<Rightarrow> user_row option" where
  "User_get_by_id s uid =
     (if \<not> connected s then None
      else case filter (\<lambda>r. u_user_id r = uid) (users s) of
             [] \<Rightarrow> None
           | r # _ \<Rightarrow> Some r)"

section \<open>Lending (models/lending.py)\<close>

definition Lending_load_from_dict :: "lending_row \<Rightarrow> Lending" where
  "Lending_load_from_dict data =
     \<lparr>lending_id = Some (l_lending_id data), lending_book_id = l_book_id data,
      lending_user_id = l_user_id data, issue_date = l_issue_date data,
      due_date = Some (l_due_date data), return_date = l_return_date data,
      fine_amount = l_fine_amount data, status = l_status data\<rparr>"

definition Lending_get_by_id :: "db_manager \<Rightarrow> int \<Rightarrow> Lending option" where
  "Lending_get_by_id s lid =
     (if \<not> connected s then None
      else case filter (\<lambda>r. l_lending_id r = lid) (lending s) of
             [] \<Rightarrow> None
           | r # _ \<Rightarrow> Some (Lending_load_from_dict r))"

text \<open>
  \<open>Lending.save\<close>: an object without a key is inserted and receives the generated key;
  an object with a key overwrites every column of the rows carrying that key.
  \<open>Lending_columns\<close> is the tuple of values bound to the statement. The column
  \<open>due_date\<close> is \<open>NOT NULL\<close>, so a statement binding \<open>None\<close> to it is refused.
\<close>

definition Lending_columns :: "int \<Rightarrow> Lending \<Rightarrow> datetime \<Rightarrow> lending_row" where
  "Lending_columns i l due =
     \<lparr>l_lending_id = i, l_book_id = lending_book_id l, l_user_id = lending_user_id l,
      l_issue_date = issue_date l, l_due_date = due, l_return_date = return_date l,
      l_fine_amount = fine_amount l, l_status = status l\<rparr>"

definition Lending_save :: "db_manager \<Rightarrow> Lending \<Rightarrow> bool \<times> db_manager \<times> Lending" where
  "Lending_save s l =
     (if \<not> connected s then (False, s, l)
      else case due_date l of
        None \<Rightarrow> (False, s, l)
      | Some due \<Rightarrow>
         (case lending_id l of
            None \<Rightarrow>
              (let nid = next_rowid (seq_lending s) (map l_lending_id (lending s))
               in (True,
                   s\<lparr>lending := lending s @ [Lending_columns nid l due], seq_lending := nid\<rparr>,
                   l\<lparr>lending_id := Some nid\<rparr>))
          | Some i \<Rightarrow>
              (True,
               s\<lparr>lending := map (\<lambda>r. if l_lending_id r = i then Lending_columns i l due else r)
                                (lending s)\<rparr>,
               l)))"

definition Lending_delete :: "db_manager \<Rightarrow> Lending \<Rightarrow> bool \<times> db_manager" where
  "Lending_delete s l =
     (if \<not> connected s \<or> falsy_id (lending_id l) then (False, s)
      else (True, s\<lparr>lending := filter (\<lambda>r. Some (l_lending_id r) \<noteq> lending_id l) (lending s)\<rparr>))"

text \<open>
  \<open>Lending.issue_book(book_id, user_id, loan_days)\<close>; \<open>now\<close> is the value read from
  \<open>datetime.now()\<close>. The result is the returned object (\<open>None\<close> on failure) and the store.
\<close>

definition issue_book :: "db_manager \<Rightarrow> int \<Rightarrow> int \<Rightarrow> int \<Rightarrow> datetime \<Rightarrow> Lending option \<times> db_manager" where
  "issue_book s bid uid loan_days now =
     (if \<not> connected s then (None, s)
      else case Book_get_by_id s bid of
        None \<Rightarrow> (None, s)
      | Some book \<Rightarrow>
         if \<not> is_available book then (None, s)
         else
          (case User_get_by_id s uid of
             None \<Rightarrow> (None, s)
           | Some user \<Rightarrow>
              if \<not> u_is_active user then (None, s)
              else if filter (\<lambda>r. l_book_id r = bid \<and> l_user_id r = uid \<and> l_status r = LActive)
                        (lending s) \<noteq> [] then (None, s)
              else
                (let lending0 = \<lparr>lending_id = None, lending_book_id = bid, lending_user_id = uid,
                                  issue_date = now, due_date = Some (now + timedelta loan_days),
                                  return_date = None, fine_amount = 0, status = LActive\<rparr>
                 in case Lending_save s lending0 of
                      (True, s1, lending1) \<Rightarrow>
                        (case update_availability s1 book (- 1) of
                           (True, s2, _) \<Rightarrow> (Some lending1, s2)
                         | (False, s2, _) \<Rightarrow> (None, snd (Lending_delete s2 lending1)))
                    | (False, s1, _) \<Rightarrow> (None, s1))))"

text \<open>
  \<open>Lending._process_next_reservation(book_id)\<close>. Its first statement is
  \<open>from models.reservations import Reservation\<close>; every other import of the
  repository names the package \<open>LibrarySystem.models\<close>, so whether this one resolves
  depends on the interpreter's module search path. That is the parameter
  \<open>models_importable\<close>: when it is false the import raises and nothing else happens.
  The query is \<open>ORDER BY reservation_date LIMIT 1\<close>, a stable sort of the pending rows
  of the book followed by taking the first.
\<close>

definition process_next_reservation :: "bool \<Rightarrow> db_manager \<Rightarrow> int \<Rightarrow> (error + unit) \<times> db_manager" where
  "process_next_reservation models_importable s bid =
     (if \<not> models_importable then (Inl ModuleNotFoundError, s)
      else if \<not> connected s then (Inr (), s)
      else case take 1 (sort_key r_reservation_date
                  (filter (\<lambda>r. r_book_id r = bid \<and> r_status r = RPending) (reservations s))) of
             [] \<Rightarrow> (Inr (), s)
           | reservation_data # _ \<Rightarrow>
               (Inr (), snd (insert_notification s (r_user_id reservation_data)
                    (''Your reserved book is now available: '' @ str_int bid) ''reservation'')))"

text \<open>
  \<open>Lending.return_book(lending_id, fine_amount=0.0)\<close>. The optional argument is
  \<open>None\<close> when the caller leaves it out, and then takes its default \<open>0.0\<close>. The result is
  the returned flag, or the exception that escapes, and the store.
\<close>

definition return_book ::
  "bool \<Rightarrow> db_manager \<Rightarrow> int \<Rightarrow> real option \<Rightarrow> datetime \<Rightarrow> (error + bool) \<times> db_manager" where
  "return_book models_importable s lid fine_arg now =
     (if \<not> connected s then (Inr False, s)
      else case Lending_get_by_id s lid of
        None \<Rightarrow> (Inr False, s)
      | Some l \<Rightarrow>
         if status l \<noteq> LActive then (Inr False, s)
         else
           (let l' = l\<lparr>return_date := Some now,
                       fine_amount := (case fine_arg of None \<Rightarrow> 0 | Some f \<Rightarrow> f),
                       status := LReturned\<rparr>
            in case Lending_save s l' of
                 (True, s1, l1) \<Rightarrow>
                   (case Book_get_by_id s1 (lending_book_id l1) of
                      None \<Rightarrow> (Inr False, s1)
                    | Some book \<Rightarrow>
                       (case update_availability s1 book 1 of
                          (True, s2, _) \<Rightarrow>
                            (case process_next_reservation models_importable s2 (lending_book_id l1) of
                               (Inl e, s3) \<Rightarrow> (Inl e, s3)
                             | (Inr _, s3) \<Rightarrow> (Inr True, s3))
                        | (False, s2, _) \<Rightarrow> (Inr False, s2)))
               | (False, s1, _) \<Rightarrow> (Inr False, s1)))"

text \<open>
  The overdue computations read the clock; \<open>now\<close> is the instant read. \<open>timedelta.days\<close>
  is the floor of the difference in whole days.
\<close>

definition is_overdue :: "Lending \<Rightarrow> datetime \<Rightarrow> bool" where
  "is_overdue l now =
     (case due_date l of
        None \<Rightarrow> False
      | Some due \<Rightarrow> if status l \<noteq> LActive then False else now > due)"

definition days_overdue :: "Lending \<Rightarrow> datetime \<Rightarrow> int" where
  "days_overdue l now =
     (case due_date l of
        None \<Rightarrow> 0
      | Some due \<Rightarrow> if \<not> is_overdue l now then 0 else td_days (now - due))"

definition calculate_fine :: "Lending \<Rightarrow> datetime \<Rightarrow> real \<Rightarrow> real" where
  "calculate_fine l now fine_per_day =
     (let days = days_overdue l now
      in if days > 0 then real_of_int days * fine_per_day else 0)"

section \<open>Reservations (models/reservations.py)\<close>

definition Reservation_load_from_dict :: "reservation_row \<Rightarrow> Reservation" where
  "Reservation_load_from_dict data =
     \<lparr>reservation_id = Some (r_reservation_id data), reservation_book_id = r_book_id data,
      reservation_user_id = r_user_id data, reservation_date = r_reservation_date data,
      reservation_status = r_status data, notification_sent = r_notification_sent data\<rparr>"

definition Reservation_columns :: "int \<Rightarrow> Reservation \<Rightarrow> reservation_row" where
  "Reservation_columns i r =
     \<lparr>r_reservation_id = i, r_book_id = reservation_book_id r,
      r_user_id = reservation_user_id r, r_reservation_date = reservation_date r,
      r_status = reservation_status r, r_notification_sent = notification_sent r\<rparr>"

definition Reservation_save :: "db_manager \<Rightarrow> Reservation \<Rightarrow> bool \<times> db_manager \<times> Reservation" where
  "Reservation_save s r =
     (if \<not> connected s then (False, s, r)
      else case reservation_id r of
        None \<Rightarrow>
          (let nid = next_rowid (seq_reservations s) (map r_reservation_id (reservations s))
           in (True,
               s\<lparr>reservations := reservations s @ [Reservation_columns nid r],
                 seq_reservations := nid\<rparr>,
               r\<lparr>reservation_id := Some nid\<rparr>))
      | Some i \<Rightarrow>
          (True,
           s\<lparr>reservations := map (\<lambda>row. if r_reservation_id row = i
                                         then Reservation_columns i r else row)
                                  (reservations s)\<rparr>,
           r))"

definition create_reservation :: "db_manager \<Rightarrow> int \<Rightarrow> int \<Rightarrow> datetime \<Rightarrow> Reservation option \<times> db_manager" where
  "create_reservation s bid uid now =
     (if \<not> connected s then (None, s)
      else case Book_get_by_id s bid of
        None \<Rightarrow> (None, s)
      | Some book \<Rightarrow>
         (case User_get_by_id s uid of
            None \<Rightarrow> (None, s)
          | Some user \<Rightarrow>
             if \<not> u_is_active user then (None, s)
             else if is_available book then (None, s)
             else if filter (\<lambda>r. r_book_id r = bid \<and> r_user_id r = uid \<and> r_status r = RPending)
                       (reservations s) \<noteq> [] then (None, s)
             else if filter (\<lambda>r. l_book_id r = bid \<and> l_user_id r = uid \<and> l_status r = LActive)
                       (lending s) \<noteq> [] then (None, s)
             else
               (case Reservation_save s
                       \<lparr>reservation_id = None, reservation_book_id = bid,
                        reservation_user_id = uid, reservation_date = now,
                        reservation_status = RPending, notification_sent = False\<rparr> of
                  (True, s1, reservation) \<Rightarrow> (Some reservation, s1)
                | (False, s1, _) \<Rightarrow> (None, s1))))"

text \<open>
  \<open>Reservation.get_queue_position\<close>. The inner \<open>SELECT\<close> is a scalar subquery: the
  reservation date of the first matching row, or \<open>NULL\<close> when there is none, and a
  comparison with \<open>NULL\<close> selects no row. \<open>COUNT(*)\<close> always produces one result row.
\<close>

definition get_queue_position :: "db_manager \<Rightarrow> int \<Rightarrow> int \<Rightarrow> int option" where
  "get_queue_position s bid uid =
     (if \<not> connected s then None
      else
        (let own = (case filter (\<lambda>r. r_book_id r = bid \<and> r_user_id r = uid \<and> r_status r = RPending)
                           (reservations s) of
                      [] \<Rightarrow> None
                    | r2 # _ \<Rightarrow> Some (r_reservation_date r2));
             result = [int (length (filter (\<lambda>r1. r_book_id r1 = bid \<and> r_status r1 = RPending \<and>
                         (case own of None \<Rightarrow> False | Some d \<Rightarrow> r_reservation_date r1 < d))
                         (reservations s)))]
         in case result of
              [] \<Rightarrow> None
            | position # _ \<Rightarrow> Some (position + 1)))"

text \<open>
  \<open>Reservation.notify_user(message=None)\<close>: the one place that writes the column
  \<open>notification_sent\<close>.
\<close>

definition notify_user :: "db_manager \<Rightarrow> Reservation \<Rightarrow> string option \<Rightarrow> bool \<times> db_manager \<times> Reservation" where
  "notify_user s r message =
     (if \<not> connected s \<or> falsy_id (reservation_id r) then (False, s, r)
      else
        (let msg = (case message of
                      Some m \<Rightarrow> if m \<noteq> [] then Some m else None
                    | None \<Rightarrow> None);
             text = (case msg of
                       Some m \<Rightarrow> m
                     | None \<Rightarrow>
                         ''Your reserved book '' @ [CHR 0x27] @
                         (case Book_get_by_id s (reservation_book_id r) of
                            Some book \<Rightarrow> title book
                          | None \<Rightarrow> ''Unknown Book'') @
                         [CHR 0x27] @ '' is now available for pickup.'')
         in case insert_notification s (reservation_user_id r) text ''reservation'' of
              (True, s1) \<Rightarrow>
                (let r1 = r\<lparr>notification_sent := True\<rparr>
                 in case Reservation_save s1 r1 of (_, s2, r2) \<Rightarrow> (True, s2, r2))
            | (False, s1) \<Rightarrow> (False, s1, r)))"

section \<open>Sequences of circulation operations\<close>

datatype circulation_op =
    Issue int int int datetime
  | Return int "real option" datetime

fun apply_circulation_op :: "bool \<Rightarrow> db_manager \<Rightarrow> circulation_op \<Rightarrow> db_manager" where
  "apply_circulation_op imp s (Issue bid uid loan_days now) = snd (issue_book s bid uid loan_days now)"
| "apply_circulation_op imp s (Return lid fine_arg now) = snd (return_book imp s lid fine_arg now)"

definition run_circulation :: "bool \<Rightarrow> db_manager \<Rightarrow> circulation_op list \<Rightarrow> db_manager" where
  "run_circulation imp s ops = fold (\<lambda>op st. apply_circulation_op imp st op) ops s"

text \<open>
  The ledger invariant of the books table: keys are unique (\<open>PRIMARY KEY\<close>) and every
  row has \<open>0 \<le> available_copies \<le> total_copies\<close>.
\<close>

definition ledger_inv :: "db_manager \<Rightarrow> bool" where
  "ledger_inv s =
     (distinct (map b_book_id (books s)) \<and>
      list_all (\<lambda>r. 0 \<le> b_available_copies r \<and> b_available_copies r \<le> b_total_copies r) (books s))"

section \<open>The fine formula as the specification words it\<close>

text \<open>
  The specification's FineCalculator, written from its sentence
  \<open>fine(dueDate, returnDate, ratePerDay) = max(0, daysBetween(dueDate, returnDate)) * ratePerDay\<close>.
  It is compared below with \<open>calculate_fine\<close>, the function of the source.
\<close>

definition FineCalculator_spec :: "datetime \<Rightarrow> datetime \<Rightarrow> real \<Rightarrow> real" where
  "FineCalculator_spec dueDate returnDate ratePerDay =
     real_of_int (max 0 (td_days (returnDate - dueDate))) * ratePerDay"

section \<open>Example stores\<close>

text \<open>
  Day numbers count from 1970-01-01: 19718 is 2023-12-27, 19727 is 2024-01-05,
  19732 is 2024-01-10 and 19737 is 2024-01-15.

  \<open>store_one_copy_out\<close>: the single copy of book 1 is on loan to user 1, due 2024-01-10.
\<close>

definition store_one_copy_out :: db_manager where
  "store_one_copy_out =
     \<lparr>connected = True,
      books = [\<lparr>b_book_id = 1, b_title = ''Dune'', b_total_copies = 1, b_available_copies = 0\<rparr>],
      users = [\<lparr>u_user_id = 1, u_is_active = True\<rparr>, \<lparr>u_user_id = 2, u_is_active = True\<rparr>],
      lending = [\<lparr>l_lending_id = 1, l_book_id = 1, l_user_id = 1,
                  l_issue_date = timedelta 19718, l_due_date = timedelta 19732,
                  l_return_date = None, l_fine_amount = 0, l_status = LActive\<rparr>],
      reservations = [], notifications = [],
      seq_lending = 1, seq_reservations = 0, seq_notifications = 0\<rparr>"

text \<open>The same store with the connection closed.\<close>

definition store_closed :: db_manager where
  "store_closed = store_one_copy_out\<lparr>connected := False\<rparr>"

text \<open>
  \<open>store_full_shelf\<close>: loan 1 is still active, but the books row already counts every
  copy as available (\<open>Book.save\<close> on an existing book writes any \<open>available_copies\<close>
  between 0 and \<open>total_copies\<close>).
\<close>

definition store_full_shelf :: db_manager where
  "store_full_shelf =
     store_one_copy_out\<lparr>books :=
       [\<lparr>b_book_id = 1, b_title = ''Dune'', b_total_copies = 1, b_available_copies = 1\<rparr>]\<rparr>"

text \<open>
  \<open>store_waiting\<close>: two pending reservations for book 1; reservation 2 (user 3) was
  made before reservation 1 (user 2).
\<close>

definition store_waiting :: db_manager where
  "store_waiting =
     store_one_copy_out\<lparr>
       users := [\<lparr>u_user_id = 1, u_is_active = True\<rparr>, \<lparr>u_user_id = 2, u_is_active = True\<rparr>,
                 \<lparr>u_user_id = 3, u_is_active = True\<rparr>],
       reservations :=
         [\<lparr>r_reservation_id = 1, r_book_id = 1, r_user_id = 2,
           r_reservation_date = timedelta 19730, r_status = RPending, r_notification_sent = False\<rparr>,
          \<lparr>r_reservation_id = 2, r_book_id = 1, r_user_id = 3,
           r_reservation_date = timedelta 19729, r_status = RPending, r_notification_sent = False\<rparr>],
       seq_reservations := 2\<rparr>"

definition book_one_copy_out :: Book where
  "book_one_copy_out = \<lparr>book_id = Some 1, title = ''Dune'', total_copies = 1, available_copies = 0\<rparr>"

definition loan_active :: Lending where
  "loan_active =
     \<lparr>lending_id = Some 1, lending_book_id = 1, lending_user_id = 1,
      issue_date = timedelta 19718, due_date = Some (timedelta 19732),
      return_date = None, fine_amount = 0, status = LActive\<rparr>"


section \<open>Auxiliary facts about the store\<close>

lemma fold_max_ge_init: "a \<le> fold max ids (a::int)"
  by (induction ids arbitrary: a) (auto intro: order_trans[OF max.cobounded2])

lemma fold_max_ge_mem: "x \<in> set ids \<Longrightarrow> x \<le> fold max ids (a::int)"
proof (induction ids arbitrary: a)
  case Nil
  then show ?case by simp
next
  case (Cons y ys)
  show ?case
  proof (cases "x = y")
    case True
    have "max y a \<le> fold max ys (max y a)" by (rule fold_max_ge_init)
    with True show ?thesis by simp
  next
    case False
    with Cons show ?thesis by simp
  qed
qed

lemma next_rowid_fresh: "x \<in> set ids \<Longrightarrow> x < next_rowid seq ids"
  using fold_max_ge_mem[of x ids "max 0 seq"] by (simp add: next_rowid_def)

lemma next_rowid_pos: "0 < next_rowid seq ids"
  using fold_max_ge_init[of "max 0 seq" ids] by (simp add: next_rowid_def)

lemma filter_fresh_append:
  "\<forall>r \<in> set rows. k r \<noteq> k new \<Longrightarrow> filter (\<lambda>r. k r \<noteq> k new) (rows @ [new]) = rows"
  by (induction rows) auto

lemma Book_get_by_id_SomeD:
  "Book_get_by_id s bid = Some book \<Longrightarrow>
     connected s \<and> book_id book = Some bid \<and>
     (\<exists>r \<in> set (books s). b_book_id r = bid \<and> book = Book_load_from_dict r)"
  by (auto simp: Book_get_by_id_def Book_load_from_dict_def split: if_splits list.splits
        dest!: filter_eq_ConsD)

lemma Book_get_by_id_frame:
  "books s' = books s \<Longrightarrow> connected s' = connected s \<Longrightarrow>
   Book_get_by_id s' bid = Book_get_by_id s bid"
  by (simp add: Book_get_by_id_def)

lemma Lending_get_by_id_frame:
  "lending s' = lending s \<Longrightarrow> connected s' = connected s \<Longrightarrow>
   Lending_get_by_id s' lid = Lending_get_by_id s lid"
  by (simp add: Lending_get_by_id_def)

lemma update_availability_rejected:
  "\<not> (0 \<le> available_copies book + change \<and> available_copies book + change \<le> total_copies book)
   \<Longrightarrow> update_availability s book change = (False, s, book)"
  by (auto simp: update_availability_def Let_def)

lemma update_availability_False:
  "\<not> fst (update_availability s book change) \<Longrightarrow>
   update_availability s book change = (False, s, book)"
  by (auto simp: update_availability_def Let_def split: if_splits)

lemma update_availability_True:
  "fst (update_availability s book change) \<Longrightarrow>
     0 \<le> available_copies book + change \<and> available_copies book + change \<le> total_copies book \<and>
     available_copies (snd (snd (update_availability s book change))) = available_copies book + change \<and>
     connected s \<and> \<not> falsy_id (book_id book)"
  by (auto simp: update_availability_def Let_def split: if_splits)

lemma update_availability_fst_frame:
  "connected s' = connected s \<Longrightarrow>
   fst (update_availability s' book change) = fst (update_availability s book change)"
  by (simp add: update_availability_def Let_def)

lemma Lending_save_insert:
  "connected s \<Longrightarrow> lending_id l = None \<Longrightarrow> due_date l = Some d \<Longrightarrow>
   Lending_save s l =
      (True, s\<lparr>lending := lending s @
                  [Lending_columns (next_rowid (seq_lending s) (map l_lending_id (lending s))) l d],
               seq_lending := next_rowid (seq_lending s) (map l_lending_id (lending s))\<rparr>,
       l\<lparr>lending_id := Some (next_rowid (seq_lending s) (map l_lending_id (lending s)))\<rparr>)"
  by (simp add: Lending_save_def Let_def)

text \<open>Deleting the row that was just inserted restores the table: its key is fresh.\<close>

lemma Lending_delete_fresh:
  assumes "connected s" "nid = next_rowid seq (map l_lending_id rows)" "l_lending_id row = nid"
      "lending_id l = Some nid" "lending s = rows @ [row]"
  shows "Lending_delete s l = (True, s\<lparr>lending := rows\<rparr>)"
proof -
  have "\<forall>r \<in> set rows. l_lending_id r \<noteq> l_lending_id row"
    using next_rowid_fresh[of _ "map l_lending_id rows" seq] assms(2,3) by fastforce
  then have "filter (\<lambda>r. l_lending_id r \<noteq> l_lending_id row) (rows @ [row]) = rows"
    by (rule filter_fresh_append)
  moreover have "\<not> falsy_id (Some nid)"
    using next_rowid_pos[of seq "map l_lending_id rows"] assms(2) by (simp add: falsy_id_def)
  ultimately show ?thesis using assms by (simp add: Lending_delete_def)
qed

lemma issue_book_rollback:
  assumes b: "Book_get_by_id s bid = Some book"
    and rej: "\<not> fst (update_availability s book (- 1))"
  shows "fst (issue_book s bid uid loan_days now) = None \<and>
         lending (snd (issue_book s bid uid loan_days now)) = lending s \<and>
         books (snd (issue_book s bid uid loan_days now)) = books s"
proof -
  from b have c: "connected s" by (simp add: Book_get_by_id_SomeD)
  define l0 where "l0 = \<lparr>lending_id = None, lending_book_id = bid, lending_user_id = uid,
               issue_date = now, due_date = Some (now + timedelta loan_days),
               return_date = None, fine_amount = 0, status = LActive\<rparr>"
  define nid where "nid = next_rowid (seq_lending s) (map l_lending_id (lending s))"
  define row where "row = Lending_columns nid l0 (now + timedelta loan_days)"
  define s1 where "s1 = s\<lparr>lending := lending s @ [row], seq_lending := nid\<rparr>"
  define l1 where "l1 = l0\<lparr>lending_id := Some nid\<rparr>"
  have sv: "Lending_save s l0 = (True, s1, l1)"
    using Lending_save_insert[OF c, of l0 "now + timedelta loan_days"]
    by (simp add: l0_def s1_def l1_def row_def nid_def)
  have "\<not> fst (update_availability s1 book (- 1))"
    using rej update_availability_fst_frame[of s1 s book "- 1"] by (simp add: s1_def)
  then have ua: "update_availability s1 book (- 1) = (False, s1, book)"
    by (rule update_availability_False)
  have del: "Lending_delete s1 l1 = (True, s1\<lparr>lending := lending s\<rparr>)"
    by (rule Lending_delete_fresh[where seq = "seq_lending s" and row = row and nid = nid])
       (simp_all add: c s1_def l1_def nid_def row_def Lending_columns_def)
  have "issue_book s bid uid loan_days now = (None, s) \<or>
        issue_book s bid uid loan_days now = (None, s1\<lparr>lending := lending s\<rparr>)"
    unfolding issue_book_def Let_def l0_def[symmetric]
    using c b by (simp add: sv ua del split: option.splits)
  then show ?thesis by (auto simp: s1_def)
qed

lemma issue_book_unavailable:
  "Book_get_by_id s bid = Some book \<Longrightarrow> available_copies book \<le> 0 \<Longrightarrow>
   issue_book s bid uid loan_days now = (None, s)"
  by (simp add: issue_book_def is_available_def)

lemma td_days_timedelta: "td_days (timedelta a - timedelta b) = a - b"
proof -
  have "timedelta a - timedelta b = (a - b) * 86400000000"
    by (simp add: timedelta_def algebra_simps)
  then show ?thesis by (simp add: td_days_def)
qed

lemma td_days_nonpos: "x \<le> 0 \<Longrightarrow> td_days x \<le> 0"
  unfolding td_days_def by (smt (verit) div_nonpos_pos_le0)

lemma td_days_nonneg: "0 \<le> x \<Longrightarrow> 0 \<le> td_days x"
  unfolding td_days_def by simp

lemma calculate_fine_active:
  "status l = LActive \<Longrightarrow> due_date l = Some due \<Longrightarrow>
   calculate_fine l now rate = FineCalculator_spec due now rate"
  using td_days_nonpos[of "now - due"] td_days_nonneg[of "now - due"]
  by (auto simp: calculate_fine_def days_overdue_def is_overdue_def FineCalculator_spec_def
        Let_def max_def)


section \<open>Issue: a rejected decrement leaves no loan (C3)\<close>

text \<open>
  Claim C3. Whenever the availability decrement for the item is rejected (in particular
  when \<open>available_copies\<close> is 0), \<open>issue_book\<close> returns failure (\<open>None\<close>) and the lending
  table of the resulting store is the one before the call: no loan record is persisted,
  and the books table is unchanged. When no copy is available the whole store is
  unchanged.
\<close>

theorem issue_book_rejected_no_loan:
  assumes "Book_get_by_id s bid = Some book"
    and "\<not> fst (update_availability s book (- 1))"
  shows "fst (issue_book s bid uid loan_days now) = None \<and>
         lending (snd (issue_book s bid uid loan_days now)) = lending s \<and>
         books (snd (issue_book s bid uid loan_days now)) = books s \<and>
         (available_copies book \<le> 0 \<longrightarrow> issue_book s bid uid loan_days now = (None, s))"
  using issue_book_rollback[OF assms] issue_book_unavailable[OF assms(1)] by blast

theorem issue_book_rejected_no_loan_witness:
  "Book_get_by_id store_one_copy_out 1 = Some book_one_copy_out \<and>
   \<not> fst (update_availability store_one_copy_out book_one_copy_out (- 1)) \<and>
   available_copies book_one_copy_out \<le> 0 \<and>
   issue_book store_one_copy_out 1 2 14 (timedelta 19733) = (None, store_one_copy_out) \<and>
   lending (snd (issue_book store_one_copy_out 1 2 14 (timedelta 19733))) = lending store_one_copy_out"
proof -
  have b: "Book_get_by_id store_one_copy_out 1 = Some book_one_copy_out"
    by (simp add: Book_get_by_id_def store_one_copy_out_def book_one_copy_out_def
          Book_load_from_dict_def)
  have r: "\<not> fst (update_availability store_one_copy_out book_one_copy_out (- 1))"
    by (simp add: update_availability_def book_one_copy_out_def Let_def)
  have a: "available_copies book_one_copy_out \<le> 0"
    by (simp add: book_one_copy_out_def)
  show ?thesis
    using issue_book_rejected_no_loan[OF b r, of 2 14 "timedelta 19733"] b r a by simp
qed

section \<open>Queue position (C6)\<close>

text \<open>
  Claim C6. The queue position is the number of pending reservations of the item made
  strictly earlier than the holder's own pending reservation, plus one, and is null
  when the holder has no pending reservation for the item. On the code the second half
  fails: \<open>COUNT(*)\<close> always yields a row, so for a holder without a pending reservation
  the comparison with the empty subquery counts nothing and the method returns 1.
  User 2 has no reservation in \<open>store_one_copy_out\<close>.
\<close>

theorem get_queue_position_without_reservation:
  "filter (\<lambda>r. r_book_id r = 1 \<and> r_user_id r = 2 \<and> r_status r = RPending)
      (reservations store_one_copy_out) = [] \<and>
   get_queue_position store_one_copy_out 1 2 = Some 1"
  by (simp add: get_queue_position_def store_one_copy_out_def)

text \<open>
  The first half of the claim holds: for a holder whose first pending reservation of the
  item is \<open>own\<close>, the position is the number of pending reservations of the item dated
  strictly before it, plus one.
\<close>

lemma get_queue_position_with_reservation:
  "connected s \<Longrightarrow>
   filter (\<lambda>r. r_book_id r = bid \<and> r_user_id r = uid \<and> r_status r = RPending)
     (reservations s) = own # rest \<Longrightarrow>
   get_queue_position s bid uid =
     Some (int (length (filter (\<lambda>r1. r_book_id r1 = bid \<and> r_status r1 = RPending \<and>
                 r_reservation_date r1 < r_reservation_date own) (reservations s))) + 1)"
  by (simp add: get_queue_position_def)

section \<open>Promotion changes nothing but the notifications (C8)\<close>

text \<open>
  Claim C8. \<open>_process_next_reservation\<close> leaves the books table (hence every
  \<open>available_copies\<close>) and the reservations table (hence every reservation's status, the
  promoted one included) as they were, as well as the lending and users tables and
  their key sequences; the notifications table is either unchanged or extended by
  exactly one record.
\<close>

theorem process_next_reservation_frame:
  "books (snd (process_next_reservation imp s bid)) = books s \<and>
   reservations (snd (process_next_reservation imp s bid)) = reservations s \<and>
   lending (snd (process_next_reservation imp s bid)) = lending s \<and>
   users (snd (process_next_reservation imp s bid)) = users s \<and>
   connected (snd (process_next_reservation imp s bid)) = connected s \<and>
   seq_lending (snd (process_next_reservation imp s bid)) = seq_lending s \<and>
   seq_reservations (snd (process_next_reservation imp s bid)) = seq_reservations s \<and>
   (notifications (snd (process_next_reservation imp s bid)) = notifications s \<or>
    (\<exists>n. notifications (snd (process_next_reservation imp s bid)) = notifications s @ [n]))"
  by (simp add: process_next_reservation_def insert_notification_def Let_def split: list.splits)

section \<open>The fine computation (C9)\<close>




section \<open>A closed connection (C10)\<close>

text \<open>
  Claim C10. When \<open>db_manager.connected\<close> is false, \<open>issue_book\<close>, \<open>return_book\<close>,
  \<open>create_reservation\<close> and \<open>get_queue_position\<close> return their failure value (\<open>None\<close>,
  \<open>False\<close>, \<open>None\<close>, \<open>None\<close>) and the store is the one before the call.
\<close>

theorem not_connected_operations_fail:
  assumes "\<not> connected s"
  shows "issue_book s bid uid loan_days now = (None, s) \<and>
         return_book imp s lid fine_arg now = (Inr False, s) \<and>
         create_reservation s bid uid now = (None, s) \<and>
         get_queue_position s bid uid = None"
  using assms
  by (simp add: issue_book_def return_book_def create_reservation_def get_queue_position_def)

theorem not_connected_operations_fail_witness:
  "\<not> connected store_closed \<and>
   issue_book store_closed 1 2 14 (timedelta 19733) = (None, store_closed) \<and>
   return_book True store_closed 1 None (timedelta 19733) = (Inr False, store_closed) \<and>
   create_reservation store_closed 1 2 (timedelta 19733) = (None, store_closed) \<and>
   get_queue_position store_closed 1 2 = None"
proof -
  have c: "\<not> connected store_closed"
    by (simp add: store_closed_def)
  show ?thesis
    using not_connected_operations_fail[OF c, of 1 2 14 "timedelta 19733" True 1 None] c by simp
qed

section \<open>Auxiliary facts about return and the ledger\<close>

lemma filter_map_update:
  "(\<And>r. k r = i \<Longrightarrow> k (g r) = i) \<Longrightarrow>
   filter (\<lambda>r. k r = i) (map (\<lambda>r. if k r = i then g r else r) xs) = map g (filter (\<lambda>r. k r = i) xs)"
  by (induction xs) auto

lemma Lending_load_columns:
  "lending_id l = Some i \<Longrightarrow> due_date l = Some d \<Longrightarrow>
   Lending_load_from_dict (Lending_columns i l d) = l"
  by (simp add: Lending_load_from_dict_def Lending_columns_def)

lemma Lending_get_by_id_SomeD:
  "Lending_get_by_id s lid = Some l \<Longrightarrow>
     connected s \<and> lending_id l = Some lid \<and> (\<exists>d. due_date l = Some d) \<and>
     (\<exists>r rest. filter (\<lambda>r. l_lending_id r = lid) (lending s) = r # rest)"
  by (auto simp: Lending_get_by_id_def Lending_load_from_dict_def split: if_splits list.splits
        dest!: filter_eq_ConsD)

lemma Lending_save_update:
  "connected s \<Longrightarrow> lending_id l = Some i \<Longrightarrow> due_date l = Some d \<Longrightarrow>
   Lending_save s l =
     (True, s\<lparr>lending := map (\<lambda>r. if l_lending_id r = i then Lending_columns i l d else r)
                             (lending s)\<rparr>, l)"
  by (simp add: Lending_save_def)

lemma Lending_get_by_id_saved:
  assumes "Lending_get_by_id s i = Some l0" "lending_id l = Some i" "due_date l = Some d"
    "connected s' = connected s"
    "lending s' = map (\<lambda>r. if l_lending_id r = i then Lending_columns i l d else r) (lending s)"
  shows "Lending_get_by_id s' i = Some l"
proof -
  from assms(1) obtain r rest where c: "connected s"
    and f: "filter (\<lambda>r. l_lending_id r = i) (lending s) = r # rest"
    using Lending_get_by_id_SomeD by blast
  have "filter (\<lambda>r. l_lending_id r = i) (lending s') =
        map (\<lambda>r. Lending_columns i l d) (filter (\<lambda>r. l_lending_id r = i) (lending s))"
    unfolding assms(5) by (rule filter_map_update) (simp add: Lending_columns_def)
  then have "filter (\<lambda>r. l_lending_id r = i) (lending s') =
        Lending_columns i l d # map (\<lambda>r. Lending_columns i l d) rest"
    by (simp add: f)
  then show ?thesis
    using c assms(2,3,4) by (simp add: Lending_get_by_id_def Lending_load_columns)
qed

lemma update_availability_accepted:
  "connected s \<Longrightarrow> book_id book = Some bid \<Longrightarrow> bid \<noteq> 0 \<Longrightarrow>
   0 \<le> available_copies book + change \<Longrightarrow> available_copies book + change \<le> total_copies book \<Longrightarrow>
   update_availability s book change =
     (True,
      s\<lparr>books := map (\<lambda>r. if b_book_id r = bid
                           then r\<lparr>b_available_copies := available_copies book + change\<rparr> else r)
                     (books s)\<rparr>,
      book\<lparr>available_copies := available_copies book + change\<rparr>)"
  by (simp add: update_availability_def falsy_id_def Let_def)

lemma Book_load_update:
  "Book_load_from_dict (r\<lparr>b_available_copies := n\<rparr>) = (Book_load_from_dict r)\<lparr>available_copies := n\<rparr>"
  by (simp add: Book_load_from_dict_def)

lemma Book_get_by_id_updated:
  assumes "Book_get_by_id s bid = Some book" "connected s' = connected s"
    "books s' = map (\<lambda>r. if b_book_id r = bid then r\<lparr>b_available_copies := n\<rparr> else r) (books s)"
  shows "Book_get_by_id s' bid = Some (book\<lparr>available_copies := n\<rparr>)"
proof -
  from assms(1) obtain r rest where c: "connected s"
    and f: "filter (\<lambda>r. b_book_id r = bid) (books s) = r # rest"
    and b: "book = Book_load_from_dict r"
    by (auto simp: Book_get_by_id_def split: if_splits list.splits)
  have "filter (\<lambda>r. b_book_id r = bid) (books s') =
        map (\<lambda>r. r\<lparr>b_available_copies := n\<rparr>) (filter (\<lambda>r. b_book_id r = bid) (books s))"
    unfolding assms(3) by (rule filter_map_update) simp
  then show ?thesis
    using c assms(2) by (simp add: Book_get_by_id_def f b Book_load_update)
qed

lemma process_next_reservation_fst:
  "fst (process_next_reservation imp s bid) = (if imp then Inr () else Inl ModuleNotFoundError)"
  by (simp add: process_next_reservation_def split: list.splits)

lemma process_next_reservation_tables:
  "books (snd (process_next_reservation imp s bid)) = books s \<and>
   lending (snd (process_next_reservation imp s bid)) = lending s \<and>
   reservations (snd (process_next_reservation imp s bid)) = reservations s \<and>
   connected (snd (process_next_reservation imp s bid)) = connected s"
  by (simp add: process_next_reservation_def insert_notification_def Let_def split: list.splits)

lemma return_book_accepted:
  assumes l: "Lending_get_by_id s lid = Some l" and a: "status l = LActive"
    and b: "Book_get_by_id s (lending_book_id l) = Some book"
    and nz: "lending_book_id l \<noteq> 0"
    and lo: "0 \<le> available_copies book + 1" and hi: "available_copies book + 1 \<le> total_copies book"
  shows "fst (return_book imp s lid fine_arg now) = (if imp then Inr True else Inl ModuleNotFoundError) \<and>
         Lending_get_by_id (snd (return_book imp s lid fine_arg now)) lid =
           Some (l\<lparr>return_date := Some now,
                   fine_amount := (case fine_arg of None \<Rightarrow> 0 | Some f \<Rightarrow> f),
                   status := LReturned\<rparr>) \<and>
         Book_get_by_id (snd (return_book imp s lid fine_arg now)) (lending_book_id l) =
           Some (book\<lparr>available_copies := available_copies book + 1\<rparr>)"
proof -
  from l obtain d where c: "connected s" and li: "lending_id l = Some lid" and du: "due_date l = Some d"
    using Lending_get_by_id_SomeD by blast
  define l' where "l' = l\<lparr>return_date := Some now,
                   fine_amount := (case fine_arg of None \<Rightarrow> 0 | Some f \<Rightarrow> f),
                   status := LReturned\<rparr>"
  define s1 where "s1 = s\<lparr>lending := map (\<lambda>r. if l_lending_id r = lid then Lending_columns lid l' d else r)
                             (lending s)\<rparr>"
  define bid where "bid = lending_book_id l"
  define s2 where "s2 = s1\<lparr>books := map (\<lambda>r. if b_book_id r = bid
                           then r\<lparr>b_available_copies := available_copies book + 1\<rparr> else r)
                     (books s1)\<rparr>"
  define s3 where "s3 = snd (process_next_reservation imp s2 bid)"
  have sv: "Lending_save s l' = (True, s1, l')"
    unfolding s1_def by (rule Lending_save_update) (simp_all add: c li du l'_def)
  have b1: "Book_get_by_id s1 bid = Some book"
    using b Book_get_by_id_frame[of s1 s bid] by (simp add: s1_def bid_def)
  have bi: "book_id book = Some bid"
    using b Book_get_by_id_SomeD[of s "lending_book_id l" book] by (simp add: bid_def)
  have ua: "update_availability s1 book 1 = (True, s2, book\<lparr>available_copies := available_copies book + 1\<rparr>)"
    unfolding s2_def
    by (rule update_availability_accepted) (simp_all add: s1_def c bi nz lo hi bid_def[symmetric] nz[unfolded bid_def[symmetric]])
  have pn: "process_next_reservation imp s2 bid = (if imp then Inr () else Inl ModuleNotFoundError, s3)"
    using process_next_reservation_fst[of imp s2 bid] by (simp add: s3_def prod_eq_iff)
  have lb: "lending_book_id l' = bid" by (simp add: l'_def bid_def)
  have rb: "return_book imp s lid fine_arg now = (if imp then Inr True else Inl ModuleNotFoundError, s3)"
    using c l a sv lb b1 ua pn unfolding return_book_def Let_def l'_def by simp
  have t3: "books s3 = books s2" "lending s3 = lending s2" "connected s3 = connected s2"
    using process_next_reservation_tables[of imp s2 bid] by (simp_all add: s3_def)
  have g1: "Lending_get_by_id s3 lid = Some l'"
    by (rule Lending_get_by_id_saved[OF l, where d = d])
       (simp_all add: l'_def li du t3 s2_def s1_def)
  have g2: "Book_get_by_id s3 bid = Some (book\<lparr>available_copies := available_copies book + 1\<rparr>)"
    by (rule Book_get_by_id_updated[OF b1]) (simp_all add: t3 s2_def)
  show ?thesis using rb g1 g2 by (simp add: l'_def bid_def)
qed

lemma return_book_TrueD:
  assumes "fst (return_book imp s lid fine_arg now) = Inr True"
  shows "\<exists>l book. Lending_get_by_id s lid = Some l \<and> status l = LActive \<and>
           Book_get_by_id s (lending_book_id l) = Some book \<and> lending_book_id l \<noteq> 0 \<and>
           0 \<le> available_copies book + 1 \<and> available_copies book + 1 \<le> total_copies book"
proof -
  from assms have c: "connected s"
    by (cases "connected s") (simp_all add: return_book_def)
  from assms c obtain l where l: "Lending_get_by_id s lid = Some l"
    by (cases "Lending_get_by_id s lid") (auto simp: return_book_def)
  from assms c l have a: "status l = LActive"
    by (auto simp: return_book_def split: if_splits)
  from l obtain d where li: "lending_id l = Some lid" and du: "due_date l = Some d"
    using Lending_get_by_id_SomeD by blast
  define l' where "l' = l\<lparr>return_date := Some now,
                   fine_amount := (case fine_arg of None \<Rightarrow> 0 | Some f \<Rightarrow> f),
                   status := LReturned\<rparr>"
  define s1 where "s1 = s\<lparr>lending := map (\<lambda>r. if l_lending_id r = lid then Lending_columns lid l' d else r)
                             (lending s)\<rparr>"
  have sv: "Lending_save s l' = (True, s1, l')"
    unfolding s1_def by (rule Lending_save_update) (simp_all add: c li du l'_def)
  have lb: "lending_book_id l' = lending_book_id l" by (simp add: l'_def)
  have fr: "Book_get_by_id s1 (lending_book_id l) = Book_get_by_id s (lending_book_id l)"
    by (rule Book_get_by_id_frame) (simp_all add: s1_def)
  have rb: "return_book imp s lid fine_arg now =
      (case Book_get_by_id s (lending_book_id l) of
         None \<Rightarrow> (Inr False, s1)
       | Some book \<Rightarrow>
          (case update_availability s1 book 1 of
             (True, s2, _) \<Rightarrow>
               (case process_next_reservation imp s2 (lending_book_id l') of
                  (Inl e, s3) \<Rightarrow> (Inl e, s3)
                | (Inr _, s3) \<Rightarrow> (Inr True, s3))
           | (False, s2, _) \<Rightarrow> (Inr False, s2)))"
    using c l a sv lb fr unfolding return_book_def Let_def l'_def by simp
  from assms rb obtain book where b: "Book_get_by_id s (lending_book_id l) = Some book"
    by (cases "Book_get_by_id s (lending_book_id l)") auto
  have u: "fst (update_availability s1 book 1)"
  proof (rule ccontr)
    assume "\<not> fst (update_availability s1 book 1)"
    then have "update_availability s1 book 1 = (False, s1, book)"
      by (rule update_availability_False)
    with assms rb b show False by simp
  qed
  from b have bi: "book_id book = Some (lending_book_id l)"
    using Book_get_by_id_SomeD by blast
  from update_availability_True[OF u] bi
  have "lending_book_id l \<noteq> 0" "0 \<le> available_copies book + 1"
    "available_copies book + 1 \<le> total_copies book"
    by (simp_all add: falsy_id_def)
  with l a b show ?thesis by blast
qed

lemma return_book_not_active:
  "Lending_get_by_id s lid = Some l \<Longrightarrow> status l \<noteq> LActive \<Longrightarrow>
   return_book imp s lid fine_arg now = (Inr False, s)"
  by (simp add: return_book_def)

lemma update_availability_ledger_inv:
  assumes inv: "ledger_inv s" and r: "r \<in> set (books s)" and b: "book = Book_load_from_dict r"
  shows "ledger_inv (fst (snd (update_availability s book change)))"
proof (cases "fst (update_availability s book change)")
  case False
  then show ?thesis using inv by (simp add: update_availability_False)
next
  case True
  define n where "n = available_copies book + change"
  define f where "f = (\<lambda>r'::book_row. if b_book_id r' = b_book_id r then r'\<lparr>b_available_copies := n\<rparr> else r')"
  from update_availability_True[OF True]
  have rng: "0 \<le> n" "n \<le> b_total_copies r" and c: "connected s" and nz: "b_book_id r \<noteq> 0"
    by (simp_all add: n_def b Book_load_from_dict_def falsy_id_def)
  have st: "fst (snd (update_availability s book change)) = s\<lparr>books := map f (books s)\<rparr>"
    using update_availability_accepted[of s book "b_book_id r" change] c nz rng
    by (simp add: b Book_load_from_dict_def n_def f_def)
  have ids: "map b_book_id (map f (books s)) = map b_book_id (books s)"
    by (simp add: f_def)
  from inv have d: "distinct (map b_book_id (books s))"
    and a: "\<forall>x \<in> set (books s). 0 \<le> b_available_copies x \<and> b_available_copies x \<le> b_total_copies x"
    by (simp_all add: ledger_inv_def list_all_iff)
  from d have inj: "inj_on b_book_id (set (books s))"
    by (simp add: distinct_map)
  have "\<forall>x \<in> set (books s). 0 \<le> b_available_copies (f x) \<and> b_available_copies (f x) \<le> b_total_copies (f x)"
  proof
    fix x assume x: "x \<in> set (books s)"
    show "0 \<le> b_available_copies (f x) \<and> b_available_copies (f x) \<le> b_total_copies (f x)"
    proof (cases "b_book_id x = b_book_id r")
      case True
      with inj x r have "x = r" by (simp add: inj_on_def)
      with rng show ?thesis by (simp add: f_def)
    next
      case False
      with a x show ?thesis by (simp add: f_def)
    qed
  qed
  then show ?thesis
    using d by (simp add: st ledger_inv_def list_all_iff ids del: map_map)
qed

lemma issue_book_accepted_cases:
  assumes b: "Book_get_by_id s bid = Some book"
    and acc: "fst (update_availability s book (- 1))"
  shows "snd (issue_book s bid uid loan_days now) = s \<or>
         (\<exists>s1. books s1 = books s \<and>
            snd (issue_book s bid uid loan_days now) = fst (snd (update_availability s1 book (- 1))))"
proof -
  from b have c: "connected s" by (simp add: Book_get_by_id_SomeD)
  define l0 where "l0 = \<lparr>lending_id = None, lending_book_id = bid, lending_user_id = uid,
               issue_date = now, due_date = Some (now + timedelta loan_days),
               return_date = None, fine_amount = 0, status = LActive\<rparr>"
  define nid where "nid = next_rowid (seq_lending s) (map l_lending_id (lending s))"
  define row where "row = Lending_columns nid l0 (now + timedelta loan_days)"
  define s1 where "s1 = s\<lparr>lending := lending s @ [row], seq_lending := nid\<rparr>"
  define l1 where "l1 = l0\<lparr>lending_id := Some nid\<rparr>"
  have sv: "Lending_save s l0 = (True, s1, l1)"
    using Lending_save_insert[OF c, of l0 "now + timedelta loan_days"]
    by (simp add: l0_def s1_def l1_def row_def nid_def)
  have "fst (update_availability s1 book (- 1))"
    using acc update_availability_fst_frame[of s1 s book "- 1"] by (simp add: s1_def)
  then obtain s2 b2 where ua: "update_availability s1 book (- 1) = (True, s2, b2)"
    by (cases "update_availability s1 book (- 1)") auto
  have "issue_book s bid uid loan_days now = (None, s) \<or>
        issue_book s bid uid loan_days now = (Some l1, s2)"
    unfolding issue_book_def Let_def l0_def[symmetric]
    using c b by (simp add: sv ua split: option.splits)
  moreover have "books s1 = books s" by (simp add: s1_def)
  ultimately show ?thesis using ua by force
qed

lemma issue_book_ledger_inv:
  assumes inv: "ledger_inv s"
  shows "ledger_inv (snd (issue_book s bid uid loan_days now))"
proof (cases "Book_get_by_id s bid")
  case None
  then show ?thesis using inv by (simp add: issue_book_def)
next
  case (Some book)
  then obtain r where r: "r \<in> set (books s)" "book = Book_load_from_dict r"
    using Book_get_by_id_SomeD by blast
  show ?thesis
  proof (cases "fst (update_availability s book (- 1))")
    case False
    with issue_book_rollback[OF Some, of uid loan_days now] inv show ?thesis
      by (simp add: ledger_inv_def)
  next
    case True
    from issue_book_accepted_cases[OF Some True, of uid loan_days now]
    show ?thesis
    proof
      assume "snd (issue_book s bid uid loan_days now) = s"
      with inv show ?thesis by simp
    next
      assume "\<exists>s1. books s1 = books s \<and>
            snd (issue_book s bid uid loan_days now) = fst (snd (update_availability s1 book (- 1)))"
      then obtain s1 where s1: "books s1 = books s"
        and e: "snd (issue_book s bid uid loan_days now) = fst (snd (update_availability s1 book (- 1)))"
        by blast
      have "ledger_inv s1" using inv s1 by (simp add: ledger_inv_def)
      then have "ledger_inv (fst (snd (update_availability s1 book (- 1))))"
        by (rule update_availability_ledger_inv) (simp_all add: s1 r)
      with e show ?thesis by simp
    qed
  qed
qed

lemma return_book_ledger_inv:
  assumes inv: "ledger_inv s"
  shows "ledger_inv (snd (return_book imp s lid fine_arg now))"
proof (cases "connected s")
  case False
  then show ?thesis using inv by (simp add: return_book_def)
next
  case c: True
  show ?thesis
  proof (cases "Lending_get_by_id s lid")
    case None
    then show ?thesis using inv c by (simp add: return_book_def)
  next
    case (Some l)
    show ?thesis
    proof (cases "status l = LActive")
      case False
      then show ?thesis using inv Some by (simp add: return_book_not_active)
    next
      case a: True
      from Some obtain d where li: "lending_id l = Some lid" and du: "due_date l = Some d"
        using Lending_get_by_id_SomeD by blast
      define l' where "l' = l\<lparr>return_date := Some now,
                   fine_amount := (case fine_arg of None \<Rightarrow> 0 | Some f \<Rightarrow> f),
                   status := LReturned\<rparr>"
      define s1 where "s1 = s\<lparr>lending := map (\<lambda>r. if l_lending_id r = lid then Lending_columns lid l' d else r)
                             (lending s)\<rparr>"
      have sv: "Lending_save s l' = (True, s1, l')"
        unfolding s1_def by (rule Lending_save_update) (simp_all add: c li du l'_def)
      have i1: "ledger_inv s1" using inv by (simp add: s1_def ledger_inv_def)
      have rb: "return_book imp s lid fine_arg now =
          (case Book_get_by_id s1 (lending_book_id l') of
             None \<Rightarrow> (Inr False, s1)
           | Some book \<Rightarrow>
              (case update_availability s1 book 1 of
                 (True, s2, _) \<Rightarrow>
                   (case process_next_reservation imp s2 (lending_book_id l') of
                      (Inl e, s3) \<Rightarrow> (Inl e, s3)
                    | (Inr _, s3) \<Rightarrow> (Inr True, s3))
               | (False, s2, _) \<Rightarrow> (Inr False, s2)))"
        using c Some a sv unfolding return_book_def Let_def l'_def by simp
      show ?thesis
      proof (cases "Book_get_by_id s1 (lending_book_id l')")
        case None
        then show ?thesis using rb i1 by simp
      next
        case (Some book)
        then obtain r where r: "r \<in> set (books s1)" "book = Book_load_from_dict r"
          using Book_get_by_id_SomeD by blast
        have i2: "ledger_inv (fst (snd (update_availability s1 book 1)))"
          using i1 r by (rule update_availability_ledger_inv)
        obtain ok s2 b2 where ua: "update_availability s1 book 1 = (ok, s2, b2)"
          by (cases "update_availability s1 book 1") auto
        with i2 have i2': "ledger_inv s2" by simp
        show ?thesis
        proof (cases ok)
          case False
          then show ?thesis using rb Some ua i2' by simp
        next
          case True
          have "snd (return_book imp s lid fine_arg now) =
                snd (process_next_reservation imp s2 (lending_book_id l'))"
            using rb Some ua True
            by (cases "process_next_reservation imp s2 (lending_book_id l')")
               (auto split: sum.splits)
          then show ?thesis
            using i2' process_next_reservation_tables[of imp s2 "lending_book_id l'"]
            by (simp add: ledger_inv_def)
        qed
      qed
    qed
  qed
qed

lemma run_circulation_ledger_inv:
  "ledger_inv s \<Longrightarrow> ledger_inv (run_circulation imp s ops)"
  unfolding run_circulation_def
proof (induction ops arbitrary: s)
  case Nil
  then show ?case by simp
next
  case (Cons op ops)
  have "ledger_inv (apply_circulation_op imp s op)"
    using Cons.prems by (cases op) (simp_all add: issue_book_ledger_inv return_book_ledger_inv)
  then show ?case using Cons.IH by simp
qed

lemma sort_key_hd_min:
  assumes "sort_key f xs = y # ys" "x \<in> set xs"
  shows "f y \<le> f x"
proof -
  have s: "sorted (map f (sort_key f xs))" by simp
  have "x \<in> set (sort_key f xs)" using assms(2) by simp
  with assms(1) s show ?thesis by auto
qed

lemma process_next_reservation_earliest:
  assumes c: "connected s"
    and p: "r \<in> set (reservations s)" "r_book_id r = bid" "r_status r = RPending"
  shows "\<exists>r0 \<in> set (reservations s). r_book_id r0 = bid \<and> r_status r0 = RPending \<and>
           (\<forall>r' \<in> set (reservations s). r_book_id r' = bid \<and> r_status r' = RPending \<longrightarrow>
               r_reservation_date r0 \<le> r_reservation_date r') \<and>
           map n_user_id (notifications (snd (process_next_reservation True s bid))) =
             map n_user_id (notifications s) @ [r_user_id r0] \<and>
           reservations (snd (process_next_reservation True s bid)) = reservations s"
proof -
  define ps where "ps = filter (\<lambda>r. r_book_id r = bid \<and> r_status r = RPending) (reservations s)"
  from p have "r \<in> set ps" by (simp add: ps_def)
  then have "sort_key r_reservation_date ps \<noteq> []"
    by (metis empty_iff list.set(1) set_sort)
  then obtain r0 rest where sk: "sort_key r_reservation_date ps = r0 # rest"
    by (cases "sort_key r_reservation_date ps") auto
  have "r0 \<in> set ps" using sk by (metis list.set_intros(1) set_sort)
  then have m: "r0 \<in> set (reservations s)" "r_book_id r0 = bid" "r_status r0 = RPending"
    by (simp_all add: ps_def)
  have mn: "\<forall>r' \<in> set (reservations s). r_book_id r' = bid \<and> r_status r' = RPending \<longrightarrow>
               r_reservation_date r0 \<le> r_reservation_date r'"
    using sort_key_hd_min[OF sk] by (simp add: ps_def)
  have "process_next_reservation True s bid =
        (Inr (), snd (insert_notification s (r_user_id r0)
                    (''Your reserved book is now available: '' @ str_int bid) ''reservation''))"
    using c sk by (simp add: process_next_reservation_def ps_def[symmetric])
  then have "map n_user_id (notifications (snd (process_next_reservation True s bid))) =
             map n_user_id (notifications s) @ [r_user_id r0] \<and>
           reservations (snd (process_next_reservation True s bid)) = reservations s"
    using c by (simp add: insert_notification_def Let_def)
  with m mn show ?thesis by blast
qed

lemma Lending_get_by_id_example:
  "Lending_get_by_id store_one_copy_out 1 = Some loan_active"
  by (simp add: Lending_get_by_id_def store_one_copy_out_def loan_active_def
        Lending_load_from_dict_def)

lemma Book_get_by_id_example:
  "Book_get_by_id store_one_copy_out 1 = Some book_one_copy_out"
  by (simp add: Book_get_by_id_def store_one_copy_out_def book_one_copy_out_def
        Book_load_from_dict_def)

lemma ledger_inv_example: "ledger_inv store_one_copy_out"
  by (simp add: ledger_inv_def store_one_copy_out_def)

section \<open>The availability ledger (C1)\<close>

text \<open>
  Claim C1. For every book and every delta, \<open>update_availability\<close> applies
  \<open>available_copies += delta\<close> only if the result lies between 0 and \<open>total_copies\<close>:
  when it does not, the call returns \<open>False\<close> and neither the store nor the object
  changes; when the call succeeds the result is in range, the object carries it and so
  does the row read back from the store. Hence every sequence of issue and return
  operations, started in a store whose books rows have unique keys and satisfy
  \<open>0 \<le> available_copies \<le> total_copies\<close>, ends in such a store.
\<close>

theorem ledger_invariant_maintained:
  "(\<not> (0 \<le> available_copies book + change \<and> available_copies book + change \<le> total_copies book)
      \<longrightarrow> update_availability s book change = (False, s, book))
   \<and> (fst (update_availability s book change) \<longrightarrow>
        0 \<le> available_copies book + change \<and> available_copies book + change \<le> total_copies book \<and>
        available_copies (snd (snd (update_availability s book change))) = available_copies book + change \<and>
        (Book_get_by_id s bid = Some book \<longrightarrow>
           Book_get_by_id (fst (snd (update_availability s book change))) bid =
             Some (book\<lparr>available_copies := available_copies book + change\<rparr>)))
   \<and> (ledger_inv s \<longrightarrow> ledger_inv (run_circulation imp s ops))"
proof (intro conjI impI)
  assume "\<not> (0 \<le> available_copies book + change \<and> available_copies book + change \<le> total_copies book)"
  then show "update_availability s book change = (False, s, book)"
    by (rule update_availability_rejected)
next
  assume t: "fst (update_availability s book change)"
  from update_availability_True[OF t]
  show "0 \<le> available_copies book + change"
    and "available_copies book + change \<le> total_copies book"
    and "available_copies (snd (snd (update_availability s book change))) = available_copies book + change"
    by simp_all
next
  assume t: "fst (update_availability s book change)" and b: "Book_get_by_id s bid = Some book"
  from b have bi: "book_id book = Some bid" using Book_get_by_id_SomeD by blast
  from update_availability_True[OF t] bi
  have h: "connected s" "bid \<noteq> 0" "0 \<le> available_copies book + change"
    "available_copies book + change \<le> total_copies book"
    by (simp_all add: falsy_id_def)
  note ua = update_availability_accepted[OF h(1) bi h(2,3,4)]
  show "Book_get_by_id (fst (snd (update_availability s book change))) bid =
          Some (book\<lparr>available_copies := available_copies book + change\<rparr>)"
    by (rule Book_get_by_id_updated[OF b]) (simp_all add: ua)
next
  assume "ledger_inv s"
  then show "ledger_inv (run_circulation imp s ops)"
    by (rule run_circulation_ledger_inv)
qed

theorem ledger_invariant_maintained_witness:
  "update_availability store_one_copy_out book_one_copy_out (- 1) =
     (False, store_one_copy_out, book_one_copy_out) \<and>
   fst (update_availability store_one_copy_out book_one_copy_out 1) \<and>
   Book_get_by_id store_one_copy_out 1 = Some book_one_copy_out \<and>
   Book_get_by_id (fst (snd (update_availability store_one_copy_out book_one_copy_out 1))) 1 =
     Some (book_one_copy_out\<lparr>available_copies := 1\<rparr>) \<and>
   ledger_inv store_one_copy_out \<and>
   ledger_inv (run_circulation True store_one_copy_out
     [Return 1 None (timedelta 19737), Issue 1 2 14 (timedelta 19738),
      Issue 1 1 14 (timedelta 19738), Return 1 None (timedelta 19739)])"
proof -
  have n: "\<not> (0 \<le> available_copies book_one_copy_out + (- 1) \<and>
              available_copies book_one_copy_out + (- 1) \<le> total_copies book_one_copy_out)"
    by (simp add: book_one_copy_out_def)
  have t: "fst (update_availability store_one_copy_out book_one_copy_out 1)"
    by (simp add: update_availability_def store_one_copy_out_def book_one_copy_out_def
          falsy_id_def Let_def)
  have a: "available_copies book_one_copy_out + 1 = 1"
    by (simp add: book_one_copy_out_def)
  show ?thesis
    using ledger_invariant_maintained[of book_one_copy_out "- 1" store_one_copy_out 1 True "[]"]
      ledger_invariant_maintained[of book_one_copy_out 1 store_one_copy_out 1 True
        "[Return 1 None (timedelta 19737), Issue 1 2 14 (timedelta 19738),
          Issue 1 1 14 (timedelta 19738), Return 1 None (timedelta 19739)]"]
      n t a Book_get_by_id_example ledger_inv_example
    by simp
qed

section \<open>A return that fails half-way (C2)\<close>

text \<open>
  Claim C2. If any sub-step of \<open>return_book\<close> fails, the call returns failure and the
  store is exactly as before. The code saves the loan as returned before it touches the
  book and has no rollback (unlike \<open>issue_book\<close>, which deletes the loan it has just
  inserted when the availability update fails). In \<open>store_full_shelf\<close> the increment is
  rejected: the call returns \<open>False\<close>, yet loan 1 is now \<open>returned\<close>, carries a return
  date, and \<open>available_copies\<close> is still 1.
\<close>

theorem return_book_partial_failure:
  "fst (return_book True store_full_shelf 1 None (timedelta 19737)) = Inr False \<and>
   snd (return_book True store_full_shelf 1 None (timedelta 19737)) \<noteq> store_full_shelf \<and>
   map l_status (lending store_full_shelf) = [LActive] \<and>
   map l_status (lending (snd (return_book True store_full_shelf 1 None (timedelta 19737)))) =
     [LReturned] \<and>
   map l_return_date (lending (snd (return_book True store_full_shelf 1 None (timedelta 19737)))) =
     [Some (timedelta 19737)] \<and>
   map b_available_copies (books store_full_shelf) = [1] \<and>
   map b_available_copies (books (snd (return_book True store_full_shelf 1 None (timedelta 19737)))) =
     [1]"
proof -
  have e: "return_book True store_full_shelf 1 None (timedelta 19737) =
     (Inr False, store_full_shelf\<lparr>lending := [\<lparr>l_lending_id = 1, l_book_id = 1, l_user_id = 1,
                  l_issue_date = timedelta 19718, l_due_date = timedelta 19732,
                  l_return_date = Some (timedelta 19737), l_fine_amount = 0,
                  l_status = LReturned\<rparr>]\<rparr>)"
    by (simp add: return_book_def store_full_shelf_def store_one_copy_out_def Lending_get_by_id_def
          Lending_load_from_dict_def Lending_save_def Lending_columns_def Book_get_by_id_def
          Book_load_from_dict_def update_availability_def falsy_id_def Let_def)
  have d: "store_full_shelf\<lparr>lending := [\<lparr>l_lending_id = 1, l_book_id = 1, l_user_id = 1,
                  l_issue_date = timedelta 19718, l_due_date = timedelta 19732,
                  l_return_date = Some (timedelta 19737), l_fine_amount = 0,
                  l_status = LReturned\<rparr>]\<rparr> \<noteq> store_full_shelf"
  proof
    assume "store_full_shelf\<lparr>lending := [\<lparr>l_lending_id = 1, l_book_id = 1, l_user_id = 1,
                  l_issue_date = timedelta 19718, l_due_date = timedelta 19732,
                  l_return_date = Some (timedelta 19737), l_fine_amount = 0,
                  l_status = LReturned\<rparr>]\<rparr> = store_full_shelf"
    then have "map l_status (lending (store_full_shelf\<lparr>lending := [\<lparr>l_lending_id = 1, l_book_id = 1,
                  l_user_id = 1, l_issue_date = timedelta 19718, l_due_date = timedelta 19732,
                  l_return_date = Some (timedelta 19737), l_fine_amount = 0,
                  l_status = LReturned\<rparr>]\<rparr>)) = map l_status (lending store_full_shelf)"
      by simp
    then show False by (simp add: store_full_shelf_def store_one_copy_out_def)
  qed
  show ?thesis
    unfolding e using d by (simp add: store_full_shelf_def store_one_copy_out_def)
qed

section \<open>The effect of a successful return (C4)\<close>

text \<open>
  Claim C4, as the specification states it: a successful return stores the fine override
  when one is given and otherwise the fine calculator's value for the due date and the
  current time. \<open>return_book\<close> never calls \<open>calculate_fine\<close>: its parameter defaults to
  \<open>0.0\<close>. Loan 1 of \<open>store_one_copy_out\<close> is due 2024-01-10; returned on 2024-01-15
  without an override, the calculator gives 5 and the stored fine is 0.
\<close>

theorem return_book_default_fine_counterexample:
  "Lending_get_by_id store_one_copy_out 1 = Some loan_active \<and>
   calculate_fine loan_active (timedelta 19737) 1 = 5 \<and>
   FineCalculator_spec (timedelta 19732) (timedelta 19737) 1 = 5 \<and>
   fst (return_book True store_one_copy_out 1 None (timedelta 19737)) = Inr True \<and>
   map l_fine_amount (lending (snd (return_book True store_one_copy_out 1 None (timedelta 19737)))) =
     [0]"
proof -
  have f: "calculate_fine loan_active (timedelta 19737) 1 = 5"
    using calculate_fine_active[of loan_active "timedelta 19732" "timedelta 19737" 1]
    by (simp add: loan_active_def FineCalculator_spec_def td_days_timedelta)
  have g: "FineCalculator_spec (timedelta 19732) (timedelta 19737) 1 = 5"
    by (simp add: FineCalculator_spec_def td_days_timedelta)
  have e: "return_book True store_one_copy_out 1 None (timedelta 19737) =
     (Inr True, store_one_copy_out\<lparr>
        books := [\<lparr>b_book_id = 1, b_title = ''Dune'', b_total_copies = 1, b_available_copies = 1\<rparr>],
        lending := [\<lparr>l_lending_id = 1, l_book_id = 1, l_user_id = 1,
                  l_issue_date = timedelta 19718, l_due_date = timedelta 19732,
                  l_return_date = Some (timedelta 19737), l_fine_amount = 0,
                  l_status = LReturned\<rparr>]\<rparr>)"
    by (simp add: return_book_def store_one_copy_out_def Lending_get_by_id_def
          Lending_load_from_dict_def Lending_save_def Lending_columns_def Book_get_by_id_def
          Book_load_from_dict_def update_availability_def falsy_id_def Let_def
          process_next_reservation_def)
  show ?thesis
    unfolding e using f g Lending_get_by_id_example by simp
qed

text \<open>
  Claim C4, amended. For every active loan, a successful return (\<open>return_book\<close> returns
  \<open>True\<close>) sets \<open>return_date\<close> to now, \<open>status\<close> to returned and \<open>fine_amount\<close> to the
  caller-supplied amount, which is 0.0 when the caller gives none, and increments the
  item's available copies by one.
\<close>

theorem return_book_success_effect:
  assumes "fst (return_book imp s lid fine_arg now) = Inr True"
  shows "\<exists>l book. Lending_get_by_id s lid = Some l \<and> status l = LActive \<and>
           Book_get_by_id s (lending_book_id l) = Some book \<and>
           Lending_get_by_id (snd (return_book imp s lid fine_arg now)) lid =
             Some (l\<lparr>return_date := Some now,
                     fine_amount := (case fine_arg of None \<Rightarrow> 0 | Some f \<Rightarrow> f),
                     status := LReturned\<rparr>) \<and>
           Book_get_by_id (snd (return_book imp s lid fine_arg now)) (lending_book_id l) =
             Some (book\<lparr>available_copies := available_copies book + 1\<rparr>)"
proof -
  from return_book_TrueD[OF assms] obtain l book where
    h: "Lending_get_by_id s lid = Some l" "status l = LActive"
       "Book_get_by_id s (lending_book_id l) = Some book" "lending_book_id l \<noteq> 0"
       "0 \<le> available_copies book + 1" "available_copies book + 1 \<le> total_copies book"
    by blast
  from return_book_accepted[OF h, of imp fine_arg now] h(1,2,3) show ?thesis by blast
qed

theorem return_book_success_effect_witness:
  "fst (return_book True store_one_copy_out 1 (Some 2) (timedelta 19737)) = Inr True \<and>
   Lending_get_by_id store_one_copy_out 1 = Some loan_active \<and>
   Lending_get_by_id (snd (return_book True store_one_copy_out 1 (Some 2) (timedelta 19737))) 1 =
     Some (loan_active\<lparr>return_date := Some (timedelta 19737), fine_amount := 2,
                        status := LReturned\<rparr>) \<and>
   Book_get_by_id (snd (return_book True store_one_copy_out 1 (Some 2) (timedelta 19737))) 1 =
     Some (book_one_copy_out\<lparr>available_copies := 1\<rparr>)"
proof -
  have t: "fst (return_book True store_one_copy_out 1 (Some 2) (timedelta 19737)) = Inr True"
    by (simp add: return_book_def store_one_copy_out_def Lending_get_by_id_def
          Lending_load_from_dict_def Lending_save_def Lending_columns_def Book_get_by_id_def
          Book_load_from_dict_def update_availability_def falsy_id_def Let_def
          process_next_reservation_def)
  from return_book_success_effect[OF t] obtain l book where
    h: "Lending_get_by_id store_one_copy_out 1 = Some l"
       "Book_get_by_id store_one_copy_out (lending_book_id l) = Some book"
       "Lending_get_by_id (snd (return_book True store_one_copy_out 1 (Some 2) (timedelta 19737))) 1 =
          Some (l\<lparr>return_date := Some (timedelta 19737), fine_amount := 2, status := LReturned\<rparr>)"
       "Book_get_by_id (snd (return_book True store_one_copy_out 1 (Some 2) (timedelta 19737)))
          (lending_book_id l) = Some (book\<lparr>available_copies := available_copies book + 1\<rparr>)"
    by auto
  from h(1) have l: "l = loan_active" by (simp add: Lending_get_by_id_example)
  have lb: "lending_book_id loan_active = 1" by (simp add: loan_active_def)
  from h(2) l lb have b: "book = book_one_copy_out" by (simp add: Book_get_by_id_example)
  have a: "available_copies book_one_copy_out + 1 = 1" by (simp add: book_one_copy_out_def)
  show ?thesis using t h(3,4) l b lb a Lending_get_by_id_example by simp
qed

section \<open>Promotion on return (C5)\<close>

text \<open>
  Claim C5. With at least one pending reservation for the item, promotion selects the
  pending reservation with the earliest \<open>reservation_date\<close>, emits exactly one
  notification for its holder and marks its \<open>notification_sent\<close> flag. The first two
  parts hold whenever the import at the head of the method resolves
  (\<open>process_next_reservation_earliest\<close> above). The flag is not written:
  \<open>_process_next_reservation\<close> inserts the notification row itself and never calls
  \<open>Reservation.notify_user\<close>, the method that sets and saves the flag. In
  \<open>store_waiting\<close> the earlier reservation is number 2, held by user 3: one notification
  for user 3 appears and both flags stay false.
\<close>

theorem process_next_reservation_flag_not_set:
  "map r_reservation_date (reservations store_waiting) = [timedelta 19730, timedelta 19729] \<and>
   map r_user_id (reservations store_waiting) = [2, 3] \<and>
   fst (process_next_reservation True store_waiting 1) = Inr () \<and>
   map n_user_id (notifications (snd (process_next_reservation True store_waiting 1))) = [3] \<and>
   map r_notification_sent (reservations (snd (process_next_reservation True store_waiting 1))) =
     [False, False]"
proof -
  have e: "process_next_reservation True store_waiting 1 =
     (Inr (), store_waiting\<lparr>notifications :=
         [\<lparr>n_notification_id = 1, n_user_id = 3,
           n_message = ''Your reserved book is now available: 1'', n_type = ''reservation''\<rparr>],
         seq_notifications := 1\<rparr>)"
    by (simp add: process_next_reservation_def store_waiting_def store_one_copy_out_def
          insert_notification_def next_rowid_def timedelta_def str_int_def Let_def)
  show ?thesis
    unfolding e by (simp add: store_waiting_def store_one_copy_out_def)
qed

text \<open>
  The sibling path: \<open>Reservation.notify_user\<close> on reservation 2 of the same store inserts
  the notification for user 3 and sets the flag of that reservation.
\<close>

lemma notify_user_sets_flag:
  "map n_user_id (notifications (fst (snd (notify_user store_waiting
       \<lparr>reservation_id = Some 2, reservation_book_id = 1, reservation_user_id = 3,
        reservation_date = timedelta 19729, reservation_status = RPending,
        notification_sent = False\<rparr> None)))) = [3] \<and>
   map r_notification_sent (reservations (fst (snd (notify_user store_waiting
       \<lparr>reservation_id = Some 2, reservation_book_id = 1, reservation_user_id = 3,
        reservation_date = timedelta 19729, reservation_status = RPending,
        notification_sent = False\<rparr> None)))) = [False, True]"
  by (simp add: notify_user_def store_waiting_def store_one_copy_out_def falsy_id_def
        insert_notification_def Reservation_save_def Reservation_columns_def
        Book_get_by_id_def Book_load_from_dict_def Let_def)

section \<open>Returning twice (C7)\<close>

text \<open>
  Claim C7. For every loan, calling return twice in sequence succeeds on the first call
  and fails on the second, and \<open>available_copies\<close> is incremented exactly once across
  the two calls. On the code the first call does not always succeed for an active loan:

  \<^item> In \<open>store_full_shelf\<close> loan 1 is active. The first \<open>return_book(1)\<close> saves the loan
    as returned, the increment is rejected, and the call returns \<open>False\<close> without
    undoing the save; the second call returns \<open>False\<close> because the loan is no longer
    active. Neither call succeeds and \<open>available_copies\<close> is 1 before and after.
  \<^item> Where the import at the head of \<open>_process_next_reservation\<close> does not resolve, the
    first call on the active loan of \<open>store_one_copy_out\<close> ends in
    \<open>ModuleNotFoundError\<close> after the loan is saved and the copy counted (0 becomes 1);
    the second call returns \<open>False\<close> and leaves the count at 1. The entry points of the
    repository put only the project root on the module path, so \<open>models.reservations\<close>
    is not found.
\<close>

theorem return_book_twice_without_success:
  "map l_status (lending store_full_shelf) = [LActive] \<and>
   map b_available_copies (books store_full_shelf) = [1] \<and>
   fst (return_book True store_full_shelf 1 None (timedelta 19737)) = Inr False \<and>
   fst (return_book True (snd (return_book True store_full_shelf 1 None (timedelta 19737)))
          1 None (timedelta 19738)) = Inr False \<and>
   map b_available_copies
     (books (snd (return_book True (snd (return_book True store_full_shelf 1 None (timedelta 19737)))
          1 None (timedelta 19738)))) = [1] \<and>
   map l_status (lending store_one_copy_out) = [LActive] \<and>
   map b_available_copies (books store_one_copy_out) = [0] \<and>
   fst (return_book False store_one_copy_out 1 None (timedelta 19737)) = Inl ModuleNotFoundError \<and>
   fst (return_book False (snd (return_book False store_one_copy_out 1 None (timedelta 19737)))
          1 None (timedelta 19738)) = Inr False \<and>
   map b_available_copies
     (books (snd (return_book False (snd (return_book False store_one_copy_out 1 None (timedelta 19737)))
          1 None (timedelta 19738)))) = [1]"
proof -
  define returned_row where "returned_row =
     \<lparr>l_lending_id = 1, l_book_id = 1, l_user_id = 1,
      l_issue_date = timedelta 19718, l_due_date = timedelta 19732,
      l_return_date = Some (timedelta 19737), l_fine_amount = 0, l_status = LReturned\<rparr>"
  define s1 where "s1 = store_full_shelf\<lparr>lending := [returned_row]\<rparr>"
  define s2 where "s2 = store_one_copy_out\<lparr>
        books := [\<lparr>b_book_id = 1, b_title = ''Dune'', b_total_copies = 1, b_available_copies = 1\<rparr>],
        lending := [returned_row]\<rparr>"
  have e1: "return_book True store_full_shelf 1 None (timedelta 19737) = (Inr False, s1)"
    by (simp add: return_book_def store_full_shelf_def store_one_copy_out_def Lending_get_by_id_def
          Lending_load_from_dict_def Lending_save_def Lending_columns_def Book_get_by_id_def
          Book_load_from_dict_def update_availability_def falsy_id_def Let_def
          s1_def returned_row_def)
  have e2: "return_book True s1 1 None (timedelta 19738) = (Inr False, s1)"
    by (simp add: return_book_def s1_def returned_row_def store_full_shelf_def
          store_one_copy_out_def Lending_get_by_id_def Lending_load_from_dict_def)
  have e3: "return_book False store_one_copy_out 1 None (timedelta 19737) =
              (Inl ModuleNotFoundError, s2)"
    by (simp add: return_book_def store_one_copy_out_def Lending_get_by_id_def
          Lending_load_from_dict_def Lending_save_def Lending_columns_def Book_get_by_id_def
          Book_load_from_dict_def update_availability_def falsy_id_def Let_def
          process_next_reservation_def s2_def returned_row_def)
  have e4: "return_book False s2 1 None (timedelta 19738) = (Inr False, s2)"
    by (simp add: return_book_def s2_def returned_row_def store_one_copy_out_def
          Lending_get_by_id_def Lending_load_from_dict_def)
  show ?thesis
    by (simp add: e1 e2 e3 e4) (simp add: s1_def s2_def store_full_shelf_def store_one_copy_out_def)
qed

text \<open>
  What does hold: for a loan that is active, whose book is in the store and has room
  for the copy, the first \<open>return_book\<close> returns \<open>True\<close> when the import resolves, the
  second call on the store it leaves returns \<open>False\<close> and changes nothing, and after
  both calls the book's \<open>available_copies\<close> is exactly one more than before.
\<close>

lemma return_book_twice_when_accepted:
  assumes l: "Lending_get_by_id s lid = Some l" and a: "status l = LActive"
    and b: "Book_get_by_id s (lending_book_id l) = Some book"
    and nz: "lending_book_id l \<noteq> 0"
    and lo: "0 \<le> available_copies book + 1" and hi: "available_copies book + 1 \<le> total_copies book"
  shows "(imp \<longrightarrow> fst (return_book imp s lid fine_arg now) = Inr True) \<and>
         return_book imp' (snd (return_book imp s lid fine_arg now)) lid fine_arg' now' =
           (Inr False, snd (return_book imp s lid fine_arg now)) \<and>
         Book_get_by_id (snd (return_book imp s lid fine_arg now)) (lending_book_id l) =
           Some (book\<lparr>available_copies := available_copies book + 1\<rparr>) \<and>
         Book_get_by_id
           (snd (return_book imp' (snd (return_book imp s lid fine_arg now)) lid fine_arg' now'))
           (lending_book_id l) =
           Some (book\<lparr>available_copies := available_copies book + 1\<rparr>)"
proof -
  note r = return_book_accepted[OF l a b nz lo hi, of imp fine_arg now]
  have "return_book imp' (snd (return_book imp s lid fine_arg now)) lid fine_arg' now' =
           (Inr False, snd (return_book imp s lid fine_arg now))"
    by (rule return_book_not_active[where l = "l\<lparr>return_date := Some now,
                   fine_amount := (case fine_arg of None \<Rightarrow> 0 | Some f \<Rightarrow> f),
                   status := LReturned\<rparr>"]) (simp_all add: r)
  with r show ?thesis by (cases imp) simp_all
qed

end
